theory Spec2Isabelle
  imports Main
begin

section \<open>Device manager web console: list state, reload protocol, pagination\<close>

text \<open>
  A shallow embedding of the scripts \<^verbatim>\<open>js/devices.js\<close>, \<^verbatim>\<open>js/api.js\<close> and
  \<^verbatim>\<open>js/auth.js\<close>. A JavaScript number that holds a page index or a count is an
  \<^typ>\<open>int\<close>, the value of an integer-valued double; sums and differences are rounded
  as the doubles are. The module-level object \<^verbatim>\<open>state\<close> is a record whose field
  \<^verbatim>\<open>state.x\<close> is written \<open>st_x\<close>. An \<^verbatim>\<open>async\<close> function is split at its \<^verbatim>\<open>await\<close>:
  the part that runs when the function is called, and the part that runs when the
  awaited promise settles.
\<close>

subsection \<open>JavaScript numbers\<close>

text \<open>The doubles at a magnitude \<open>m\<close> are \<open>scale m\<close> apart: 1 below \<open>2^53\<close>, then 2, 4
  and so on, so that \<open>m div scale m\<close> has at most 53 bits.\<close>

function scale :: "nat \<Rightarrow> nat" where
  "scale m = (if m < 2 ^ 53 then 1 else 2 * scale (m div 2))"
  by pat_completeness auto
termination
  by (relation "measure id") auto

declare scale.simps [simp del]

text \<open>The double nearest to a natural number, a tie going to the even mantissa.
  (Magnitudes beyond the largest finite double, about \<open>1.8 * 10^308\<close>, are not told
  apart: no sum or difference of the code reaches them from a finite number.)\<close>

definition round_nat :: "nat \<Rightarrow> nat" where
  "round_nat m =
     (let u = scale m; q = m div u; r = m mod u in
      if 2 * r < u then q * u
      else if u < 2 * r then (q + 1) * u
      else if even q then q * u else (q + 1) * u)"

definition js_round :: "int \<Rightarrow> int" where
  "js_round n = (if n < 0 then - int (round_nat (nat (- n))) else int (round_nat (nat n)))"

text \<open>\<^verbatim>\<open>a + b\<close> and \<^verbatim>\<open>a - b\<close> on numbers: the exact result, rounded.\<close>

definition js_add :: "int \<Rightarrow> int \<Rightarrow> int" where
  "js_add a b = js_round (a + b)"

definition js_sub :: "int \<Rightarrow> int \<Rightarrow> int" where
  "js_sub a b = js_round (a - b)"

subsection \<open>Pagination range (\<^verbatim>\<open>buildPageRange\<close>)\<close>

text \<open>An entry of the page range: a page number or the string \<^verbatim>\<open>'\<dots>'\<close>.\<close>

datatype page_item = Page int | Ellipsis

text \<open>\<^verbatim>\<open>Set.prototype.add\<close>: a JavaScript set keeps insertion order and ignores a value
  it already holds.\<close>

definition set_add :: "int list \<Rightarrow> int \<Rightarrow> int list" where
  "set_add rng i = (if i \<in> set rng then rng else rng @ [i])"

text \<open>\<^verbatim>\<open>for (let i = ...; i <= hi; i++) range.add(i)\<close>. The increment is rounded, so the
  loop need not end: \<open>None\<close> is a loop that runs forever.\<close>

partial_function (option) add_loop :: "int \<Rightarrow> int \<Rightarrow> int list \<Rightarrow> int list option" where
  "add_loop i hi rng = (if i \<le> hi then add_loop (js_add i 1) hi (set_add rng i) else Some rng)"

text \<open>\<^verbatim>\<open>sorted.forEach((p, i) => { if (i > 0 && p - sorted[i - 1] > 1) result.push('\<dots>');
  result.push(p); })\<close>: the callback at index \<open>i\<close>, and the walk over all indices.\<close>

definition walk_step :: "int list \<Rightarrow> nat \<Rightarrow> page_item list" where
  "walk_step srt i =
     (if i > 0 \<and> js_sub (srt ! i) (srt ! (i - 1)) > 1 then [Ellipsis] else [])
     @ [Page (srt ! i)]"

definition walk :: "int list \<Rightarrow> page_item list" where
  "walk srt = concat (map (walk_step srt) [0..<length srt])"

text \<open>\<^verbatim>\<open>buildPageRange\<close>. \<^verbatim>\<open>Array.from({ length: total }, (_, i) => i)\<close> is empty for a
  length that is not positive. The comparator \<^verbatim>\<open>(a, b) => a - b\<close> of the sort has the sign
  of the exact difference (a difference of two distinct integers never rounds to 0), so
  the sort is the ascending one.\<close>

definition buildPageRange :: "int \<Rightarrow> int \<Rightarrow> page_item list option" where
  "buildPageRange current tot =
     (if tot \<le> 7 then Some (map (\<lambda>i. Page (int i)) [0..<nat tot])
      else
        let rng = foldl set_add [] [0, js_sub tot 1, current] in
        case add_loop (max 1 (js_sub current 2)) (min (js_sub tot 2) (js_add current 2)) rng of
          None \<Rightarrow> None
        | Some rng \<Rightarrow> Some (walk (sort rng)))"

text \<open>The two counts the renderer's bound speaks about.\<close>

definition page_count :: "page_item list \<Rightarrow> nat" where
  "page_count r = length (filter (\<lambda>x. x \<noteq> Ellipsis) r)"

definition ellipsis_count :: "page_item list \<Rightarrow> nat" where
  "ellipsis_count r = length (filter (\<lambda>x. x = Ellipsis) r)"

text \<open>The range as the specification words it, in exact integers: the sorted set of
  page 0, the last page, the current page and every page within distance 2 of the current
  page that lies in \<open>[1, total - 2]\<close>; then an ellipsis between consecutive entries more
  than 1 apart.\<close>

definition spec_pages :: "int \<Rightarrow> int \<Rightarrow> int list" where
  "spec_pages current tot =
     sorted_list_of_set ({0, tot - 1, current} \<union>
        {p \<in> {current - 2 .. current + 2}. 1 \<le> p \<and> p \<le> tot - 2})"

fun spec_gaps :: "int list \<Rightarrow> page_item list" where
  "spec_gaps [] = []"
| "spec_gaps [p] = [Page p]"
| "spec_gaps (p # p' # ps) =
     (if p' - p > 1 then [Page p, Ellipsis] else [Page p]) @ spec_gaps (p' # ps)"

definition spec_page_range :: "int \<Rightarrow> int \<Rightarrow> page_item list" where
  "spec_page_range current tot =
     (if tot \<le> 7 then map Page [0 .. tot - 1] else spec_gaps (spec_pages current tot))"

subsection \<open>HTML escaping (\<^verbatim>\<open>escapeHtml\<close>)\<close>

text \<open>A JavaScript string is a sequence of 16-bit code units, here natural numbers;
  \<open>code_units\<close> gives the code units of a literal of the source.\<close>

type_synonym js_string = "nat list"

definition code_units :: "string \<Rightarrow> js_string" where
  "code_units s = map of_char s"

text \<open>The values \<^verbatim>\<open>escapeHtml\<close> may be given: \<^verbatim>\<open>undefined\<close>, \<^verbatim>\<open>null\<close>, a string, or an
  object parsed from JSON, given by its own properties in order. Numbers, booleans and
  arrays are not part of the model.\<close>

datatype js_value = Undefined | Null | Str js_string | Object "(js_string \<times> js_value) list"

datatype exception = TypeError

text \<open>\<^verbatim>\<open>String(v)\<close>. For an object the conversion calls its \<^verbatim>\<open>toString\<close> method and, when
  that is no function, its \<^verbatim>\<open>valueOf\<close>. No property of a parsed JSON object is a
  function: with an own property \<^verbatim>\<open>toString\<close> the inherited method is shadowed, the
  inherited \<^verbatim>\<open>valueOf\<close> (or an own one) yields no primitive value, and the conversion
  throws a type error; without it the inherited \<^verbatim>\<open>toString\<close> answers
  \<^verbatim>\<open>[object Object]\<close>.\<close>

definition to_String :: "js_value \<Rightarrow> exception + js_string" where
  "to_String v =
     (case v of
        Undefined \<Rightarrow> Inr (code_units ''undefined'')
      | Null \<Rightarrow> Inr (code_units ''null'')
      | Str s \<Rightarrow> Inr s
      | Object props \<Rightarrow>
          if code_units ''toString'' \<in> fst ` set props then Inl TypeError
          else Inr (code_units ''[object Object]''))"

text \<open>\<^verbatim>\<open>s.replace(/c/g, rep)\<close> for a single-character pattern.\<close>

definition replace_all :: "nat \<Rightarrow> js_string \<Rightarrow> js_string \<Rightarrow> js_string" where
  "replace_all c rep s = concat (map (\<lambda>x. if x = c then rep else [x]) s)"

text \<open>\<^verbatim>\<open>str == null\<close> holds of \<^verbatim>\<open>null\<close> and \<^verbatim>\<open>undefined\<close> only.\<close>

definition escapeHtml :: "js_value \<Rightarrow> exception + js_string" where
  "escapeHtml v =
     (if v = Null \<or> v = Undefined then Inr []
      else
        case to_String v of
          Inl e \<Rightarrow> Inl e
        | Inr s \<Rightarrow>
            Inr (replace_all (of_char (CHR 0x27)) (code_units ''&#39;'')
                  (replace_all (of_char (CHR 0x22)) (code_units ''&quot;'')
                    (replace_all (of_char CHR ''>'') (code_units ''&gt;'')
                      (replace_all (of_char CHR ''<'') (code_units ''&lt;'')
                        (replace_all (of_char CHR ''&'') (code_units ''&amp;'') s))))))"

text \<open>The entity of one character, as the specification lists them.\<close>

definition entity :: "nat \<Rightarrow> js_string" where
  "entity c =
     (if c = of_char CHR ''&'' then code_units ''&amp;''
      else if c = of_char CHR ''<'' then code_units ''&lt;''
      else if c = of_char CHR ''>'' then code_units ''&gt;''
      else if c = of_char (CHR 0x22) then code_units ''&quot;''
      else if c = of_char (CHR 0x27) then code_units ''&#39;''
      else [c])"

subsection \<open>Numbers and strings of the runtime\<close>

text \<open>The decimal digits of a natural number: what a template literal prints for an
  HTTP status, which is an integer from 0 to 65535.\<close>

function decimal :: "nat \<Rightarrow> string" where
  "decimal n = (if n < 10 then [char_of (48 + n)] else decimal (n div 10) @ [char_of (48 + n mod 10)])"
  by pat_completeness auto
termination
  by (relation "measure id") auto

declare decimal.simps [simp del]

text \<open>\<^verbatim>\<open>String.prototype.trim\<close> removes leading and trailing white space and line
  terminators; among the code units below 256 these are tab, line feed, vertical tab,
  form feed, carriage return, space and no-break space.\<close>

definition isWhiteSpace :: "char \<Rightarrow> bool" where
  "isWhiteSpace c \<longleftrightarrow> c \<in> {CHR 0x09, CHR 0x0A, CHR 0x0B, CHR 0x0C, CHR 0x0D, CHR 0x20, CHR 0xA0}"

definition trim :: "string \<Rightarrow> string" where
  "trim s = rev (dropWhile isWhiteSpace (rev (dropWhile isWhiteSpace s)))"

text \<open>A text the page shows. Where the wording is the engine's and not the script's, the
  part is kept as what it stands for: the digits printed for a number, and the message of
  the type error thrown by reading the named property of \<^verbatim>\<open>undefined\<close> or of \<^verbatim>\<open>null\<close>.\<close>

datatype text_part =
    Lit string
  | NumberText int
  | ReadOfUndefined string
  | ReadOfNull string

type_synonym shown_text = "text_part list"

subsection \<open>The page: state object, document, session, network\<close>

text \<open>The object \<^verbatim>\<open>state\<close> of \<^verbatim>\<open>devices.js\<close>. The strings of the page (sort column,
  filters, search text, messages, storage) are of type \<^typ>\<open>string\<close>, read as sequences
  of code units below 256.\<close>

record state =
  st_page :: int
  st_size :: int
  st_sort :: string
  st_direction :: string
  st_status :: string
  st_type :: string
  st_q :: string
  st_totalPages :: int
  st_totalItems :: int

text \<open>A device record of the list response, with the fields the table shows.\<close>

record device =
  dev_id :: string
  dev_name :: js_value
  dev_type :: string
  dev_status :: string
  dev_ipAddress :: js_value
  dev_location :: js_value
  dev_updatedAt :: js_value
  dev_createdAt :: js_value

text \<open>A parsed JSON object, by the properties the scripts read from it: \<^verbatim>\<open>message\<close> and
  \<^verbatim>\<open>error\<close> of an error body, \<^verbatim>\<open>content\<close>, \<^verbatim>\<open>totalElements\<close> and \<^verbatim>\<open>totalPages\<close> of
  a page of devices. \<open>None\<close> is a property that is absent or \<^verbatim>\<open>null\<close>.\<close>

record json_object =
  j_message :: "string option"
  j_error :: "string option"
  j_content :: "device list option"
  j_totalElements :: "int option"
  j_totalPages :: "int option"

text \<open>What \<^verbatim>\<open>apiFetch\<close> resolves to: \<^verbatim>\<open>undefined\<close>, \<^verbatim>\<open>null\<close> or a parsed object.\<close>

datatype api_value = VUndefined | VNull | VObject json_object

text \<open>\<^verbatim>\<open>response.json()\<close> either rejects with a syntax error or yields the parsed body.\<close>

datatype json_result = ParseError string | Parsed api_value

record response =
  status :: nat
  json :: json_result

text \<open>\<^verbatim>\<open>response.ok\<close> is true for a status from 200 to 299.\<close>

definition ok :: "response \<Rightarrow> bool" where
  "ok r \<longleftrightarrow> 200 \<le> status r \<and> status r \<le> 299"

text \<open>How the promise of \<^verbatim>\<open>fetch\<close> settles: it rejects (no response obtainable; the
  error's message) or it resolves to a response.\<close>

datatype fetch_outcome = Rejected string | Responded response

text \<open>The query of a list request, as \<^verbatim>\<open>getDevices\<close> puts it into the URL: \<^verbatim>\<open>page\<close> and
  \<^verbatim>\<open>size\<close> always, \<^verbatim>\<open>sort\<close> as the pair column, direction, and each of \<^verbatim>\<open>status\<close>,
  \<^verbatim>\<open>type\<close>, \<^verbatim>\<open>q\<close> only when it is a non-empty string.\<close>

record params =
  p_page :: int
  p_size :: int
  p_sort :: string
  p_direction :: string
  p_status :: string
  p_type :: string
  p_q :: string

record query =
  q_page :: int
  q_size :: int
  q_sort :: "(string \<times> string) option"
  q_status :: "string option"
  q_type :: "string option"
  q_q :: "string option"

record request =
  rq_authorization :: string
  rq_query :: query

text \<open>What \<^verbatim>\<open>#table-content\<close> shows: the markup the page was served with, the
  no-devices block, the table rendered from a device list under a sort column and
  direction, or the failed-to-load block with the error's message.\<close>

datatype table_content =
    Served
  | NoDevicesFound
  | DeviceTable string string "device list"
  | FailedToLoad shown_text

text \<open>The items of \<^verbatim>\<open>#pagination\<close>: previous and next (disabled flag, target page),
  a page link (active flag, target page, label) and the disabled ellipsis item.\<close>

datatype page_link =
    Prev bool int
  | PageLink bool int int
  | Dots
  | Next bool int

record world =
  st :: state
  sessionStorage :: "string \<rightharpoonup> string"
  location_href :: string
  navigations :: "string list"
  search_input :: string
  status_filter :: string
  type_filter :: string
  clock :: nat
  searchDebounce :: "nat option"
  table_content :: table_content
  device_count :: shown_text
  pagination_hidden :: bool
  pagination :: "page_link list"
  toasts :: "(shown_text \<times> string) list"
  scroll :: "int \<times> int"
  fetches :: "request list"
  settled :: "nat list"

text \<open>The fields beyond \<^verbatim>\<open>state\<close>: the session storage and the address of the window,
  with the list \<open>navigations\<close> of the addresses assigned to \<^verbatim>\<open>window.location.href\<close> (each
  assignment asks the browser to navigate); the values of the three toolbar controls; the
  time in milliseconds and the deadline of the pending debounce timer, if any; the
  contents of the table area, the device counter and the pagination bar; the toasts
  shown (message, kind); the scroll position; the list requests issued so far, a request's
  identifier being its position in \<open>fetches\<close>, and the identifiers of those whose
  response has already arrived.\<close>

subsection \<open>\<^verbatim>\<open>auth.js\<close>\<close>

definition AUTH_KEY :: string where
  "AUTH_KEY = ''dmw_auth''"

definition USER_KEY :: string where
  "USER_KEY = ''dmw_user''"

text \<open>An assignment to \<^verbatim>\<open>window.location.href\<close>.\<close>

definition navigate :: "string \<Rightarrow> world \<Rightarrow> world" where
  "navigate url w = w\<lparr>location_href := url, navigations := navigations w @ [url]\<rparr>"

definition logout :: "world \<Rightarrow> world" where
  "logout w =
     navigate ''index.html''
       (w\<lparr>sessionStorage := (sessionStorage w)(AUTH_KEY := None, USER_KEY := None)\<rparr>)"

text \<open>\<^verbatim>\<open>!sessionStorage.getItem(AUTH_KEY)\<close> holds of a missing token and of an empty one.\<close>

definition requireAuth :: "world \<Rightarrow> world" where
  "requireAuth w =
     (case sessionStorage w AUTH_KEY of
        None \<Rightarrow> navigate ''index.html'' w
      | Some token \<Rightarrow> if token = [] then navigate ''index.html'' w else w)"

text \<open>The header value \<^verbatim>\<open>`Basic ${token}`\<close>; a missing token prints as \<^verbatim>\<open>null\<close>.\<close>

definition getAuthHeader :: "world \<Rightarrow> string" where
  "getAuthHeader w =
     ''Basic '' @ (case sessionStorage w AUTH_KEY of None \<Rightarrow> ''null'' | Some token \<Rightarrow> token)"

subsection \<open>\<^verbatim>\<open>api.js\<close>\<close>

text \<open>The message of the error thrown for a response that is not ok:
  \<^verbatim>\<open>body.message ?? body.error ?? `HTTP ${response.status}`\<close>, where a body that fails to
  parse or is \<^verbatim>\<open>null\<close> leaves the last of the three (the exception is caught).\<close>

definition error_message :: "response \<Rightarrow> string" where
  "error_message r =
     (let msg = ''HTTP '' @ decimal (status r) in
      case json r of
        Parsed (VObject body) \<Rightarrow>
          (case j_message body of
             Some m \<Rightarrow> m
           | None \<Rightarrow> (case j_error body of Some e \<Rightarrow> e | None \<Rightarrow> msg))
      | _ \<Rightarrow> msg)"

text \<open>\<^verbatim>\<open>apiFetch\<close> after \<^verbatim>\<open>await fetch(...)\<close>: the left summand is the message of the
  error it throws, the right summand the value it resolves to. A rejected \<^verbatim>\<open>fetch\<close>
  and a rejected \<^verbatim>\<open>response.json()\<close> of a successful response propagate.\<close>

definition apiFetch_resume :: "world \<Rightarrow> fetch_outcome \<Rightarrow> (string + api_value) \<times> world" where
  "apiFetch_resume w outcome =
     (case outcome of
        Rejected msg \<Rightarrow> (Inl msg, w)
      | Responded r \<Rightarrow>
          if status r = 401 then (Inr VUndefined, logout w)
          else if \<not> ok r then (Inl (error_message r), w)
          else if status r = 204 then (Inr VNull, w)
          else (case json r of
                  ParseError msg \<Rightarrow> (Inl msg, w)
                | Parsed v \<Rightarrow> (Inr v, w)))"

definition getDevices :: "params \<Rightarrow> query" where
  "getDevices ps =
     \<lparr>q_page = p_page ps,
      q_size = p_size ps,
      q_sort = (if p_sort ps \<noteq> [] then Some (p_sort ps, p_direction ps) else None),
      q_status = (if p_status ps \<noteq> [] then Some (p_status ps) else None),
      q_type = (if p_type ps \<noteq> [] then Some (p_type ps) else None),
      q_q = (if p_q ps \<noteq> [] then Some (p_q ps) else None)\<rparr>"

text \<open>The part of \<^verbatim>\<open>apiFetch\<close> before its \<^verbatim>\<open>await\<close>: the request goes out with the
  authorization header of the moment.\<close>

definition apiFetch :: "query \<Rightarrow> world \<Rightarrow> world" where
  "apiFetch qs w =
     w\<lparr>fetches := fetches w @ [\<lparr>rq_authorization = getAuthHeader w, rq_query = qs\<rparr>]\<rparr>"

subsection \<open>\<^verbatim>\<open>devices.js\<close>: loading and rendering\<close>

text \<open>\<^verbatim>\<open>showToast\<close> of \<^verbatim>\<open>utils.js\<close>, on a page that has the toast container: the
  toast is appended. Its removal four seconds later is not followed.\<close>

definition showToast :: "shown_text \<Rightarrow> string \<Rightarrow> world \<Rightarrow> world" where
  "showToast message kind w = w\<lparr>toasts := toasts w @ [(message, kind)]\<rparr>"

definition renderTable :: "device list \<Rightarrow> world \<Rightarrow> world" where
  "renderTable devices w =
     (if length devices = 0 then w\<lparr>table_content := NoDevicesFound\<rparr>
      else w\<lparr>table_content := DeviceTable (st_sort (st w)) (st_direction (st w)) devices\<rparr>)"

definition page_entry :: "int \<Rightarrow> page_item \<Rightarrow> page_link" where
  "page_entry current p =
     (case p of Ellipsis \<Rightarrow> Dots | Page n \<Rightarrow> PageLink (n = current) n (js_add n 1))"

text \<open>\<^verbatim>\<open>renderPagination\<close>. When \<^verbatim>\<open>buildPageRange\<close> does not return, neither does
  this function: the bar has been made visible, its items are never written, and the
  script stays in the loop. The world returned then is the page as the loop holds it.\<close>

definition renderPagination :: "world \<Rightarrow> world" where
  "renderPagination w =
     (let s = st w in
      if st_totalPages s \<le> 1 then w\<lparr>pagination_hidden := True\<rparr>
      else
        case buildPageRange (st_page s) (st_totalPages s) of
          None \<Rightarrow> w\<lparr>pagination_hidden := False\<rparr>
        | Some pages \<Rightarrow>
            w\<lparr>pagination_hidden := False,
              pagination :=
                [Prev (st_page s = 0) (js_sub (st_page s) 1)]
                @ map (page_entry (st_page s)) pages
                @ [Next (st_page s \<ge> js_sub (st_totalPages s) 1) (js_add (st_page s) 1)]\<rparr>)"

text \<open>\<^verbatim>\<open>loadDevices\<close> up to its \<^verbatim>\<open>await\<close>: the request is built from the state of the
  moment and sent.\<close>

definition loadDevices :: "world \<Rightarrow> world" where
  "loadDevices w =
     (let s = st w in
      apiFetch
        (getDevices
           \<lparr>p_page = st_page s, p_size = st_size s, p_sort = st_sort s,
            p_direction = st_direction s, p_status = st_status s, p_type = st_type s,
            p_q = st_q s\<rparr>)
        w)"

text \<open>The \<^verbatim>\<open>catch\<close> branch of \<^verbatim>\<open>loadDevices\<close>, for an error with the given message.\<close>

definition loadDevices_catch :: "shown_text \<Rightarrow> world \<Rightarrow> world" where
  "loadDevices_catch message w =
     (showToast (Lit ''Failed to load devices: '' # message) ''danger'' w)
       \<lparr>table_content := FailedToLoad message\<rparr>"

text \<open>The \<^verbatim>\<open>try\<close> block of \<^verbatim>\<open>loadDevices\<close> after the \<^verbatim>\<open>await\<close>, for a parsed object.\<close>

definition loadDevices_apply :: "json_object \<Rightarrow> world \<Rightarrow> world" where
  "loadDevices_apply data w =
     (let totalPages = (case j_totalPages data of Some n \<Rightarrow> n | None \<Rightarrow> 0);
          totalItems = (case j_totalElements data of Some n \<Rightarrow> n | None \<Rightarrow> 0);
          w = w\<lparr>st := (st w)\<lparr>st_totalPages := totalPages, st_totalItems := totalItems\<rparr>\<rparr>;
          w = w\<lparr>device_count :=
                  [NumberText totalItems,
                   Lit ('' device'' @ (if totalItems \<noteq> 1 then ''s'' else []) @ '' found'')]\<rparr>;
          w = renderTable (case j_content data of Some ds \<Rightarrow> ds | None \<Rightarrow> []) w
      in renderPagination w)"

text \<open>\<^verbatim>\<open>loadDevices\<close> from the moment the promise of \<^verbatim>\<open>fetch\<close> settles: first the rest
  of \<^verbatim>\<open>apiFetch\<close>, then the rest of \<^verbatim>\<open>loadDevices\<close>. Nothing of the request that was
  sent is consulted: the function reads and writes the \<^verbatim>\<open>state\<close> of the moment. Reading
  \<^verbatim>\<open>data.totalPages\<close> from \<^verbatim>\<open>undefined\<close> or \<^verbatim>\<open>null\<close> throws a type error inside the
  \<^verbatim>\<open>try\<close> block, whose message the engine words.\<close>

definition loadDevices_resume :: "fetch_outcome \<Rightarrow> world \<Rightarrow> world" where
  "loadDevices_resume outcome w =
     (case apiFetch_resume w outcome of
        (Inl message, w') \<Rightarrow> loadDevices_catch [Lit message] w'
      | (Inr VUndefined, w') \<Rightarrow> loadDevices_catch [ReadOfUndefined ''totalPages''] w'
      | (Inr VNull, w') \<Rightarrow> loadDevices_catch [ReadOfNull ''totalPages''] w'
      | (Inr (VObject data), w') \<Rightarrow> loadDevices_apply data w')"

subsection \<open>\<^verbatim>\<open>devices.js\<close>: sorting, paging, toolbar\<close>

definition sortBy :: "string \<Rightarrow> world \<Rightarrow> world" where
  "sortBy col w =
     (let s = st w;
          s = (if st_sort s = col
               then s\<lparr>st_direction := (if st_direction s = ''asc'' then ''desc'' else ''asc'')\<rparr>
               else s\<lparr>st_sort := col, st_direction := ''asc''\<rparr>);
          s = s\<lparr>st_page := 0\<rparr>
      in loadDevices (w\<lparr>st := s\<rparr>))"

definition goToPage :: "int \<Rightarrow> world \<Rightarrow> world" where
  "goToPage p w =
     (if p < 0 \<or> p \<ge> st_totalPages (st w) then w
      else (loadDevices (w\<lparr>st := (st w)\<lparr>st_page := p\<rparr>\<rparr>))\<lparr>scroll := (0, 0)\<rparr>)"

text \<open>The listener of \<^verbatim>\<open>input\<close> events on the search box: the pending timer is cleared
  and a new one is set, 350 ms from now.\<close>

definition search_listener :: "world \<Rightarrow> world" where
  "search_listener w = w\<lparr>searchDebounce := Some (clock w + 350)\<rparr>"

text \<open>The callback of that timer: it reads the value the search box has when it runs.\<close>

definition search_commit :: "world \<Rightarrow> world" where
  "search_commit w = loadDevices (w\<lparr>st := (st w)\<lparr>st_q := trim (search_input w), st_page := 0\<rparr>\<rparr>)"

definition status_listener :: "world \<Rightarrow> world" where
  "status_listener w = loadDevices (w\<lparr>st := (st w)\<lparr>st_status := status_filter w, st_page := 0\<rparr>\<rparr>)"

definition type_listener :: "world \<Rightarrow> world" where
  "type_listener w = loadDevices (w\<lparr>st := (st w)\<lparr>st_type := type_filter w, st_page := 0\<rparr>\<rparr>)"

definition clear_filters_listener :: "world \<Rightarrow> world" where
  "clear_filters_listener w =
     loadDevices
       (w\<lparr>st := (st w)\<lparr>st_q := [], st_status := [], st_type := [], st_page := 0\<rparr>,
          search_input := [], status_filter := [], type_filter := []\<rparr>)"

text \<open>The callback of the 30 s interval; \<open>anyOpen\<close> tells whether a modal is shown.\<close>

definition refresh_tick :: "bool \<Rightarrow> world \<Rightarrow> world" where
  "refresh_tick anyOpen w = (if \<not> anyOpen then loadDevices w else w)"

text \<open>The page as it is when the script has been read, for a given session storage.\<close>

definition initial_state :: state where
  "initial_state =
     \<lparr>st_page = 0, st_size = 20, st_sort = ''name'', st_direction = ''asc'', st_status = [],
      st_type = [], st_q = [], st_totalPages = 0, st_totalItems = 0\<rparr>"

definition initial_world :: "(string \<rightharpoonup> string) \<Rightarrow> world" where
  "initial_world storage =
     \<lparr>st = initial_state, sessionStorage = storage, location_href = ''devices.html'',
      navigations = [], search_input = [], status_filter = [], type_filter = [], clock = 0,
      searchDebounce = None, table_content = Served, device_count = [],
      pagination_hidden = False, pagination = [], toasts = [], scroll = (0, 0),
      fetches = [], settled = []\<rparr>"

text \<open>The \<^verbatim>\<open>DOMContentLoaded\<close> listener, as far as it touches the fields above.\<close>

definition dom_content_loaded :: "world \<Rightarrow> world" where
  "dom_content_loaded w = loadDevices (requireAuth w)"

subsection \<open>Events\<close>

text \<open>What can happen to the page once it is loaded. \<open>Input\<close>: the user edits the search
  box, which then holds the given text, and the \<^verbatim>\<open>input\<close> listener runs. \<open>Elapse\<close>: the
  given number of milliseconds pass; a debounce timer that is due by then fires.
  \<open>StatusChange\<close>, \<open>TypeChange\<close>: the user picks a value in a filter drop-down.
  \<open>Arrive\<close>: the \<^verbatim>\<open>fetch\<close> of the list request with the given identifier settles, if
  that request was issued and has not settled before.\<close>

datatype event =
    Input string
  | Elapse nat
  | StatusChange string
  | TypeChange string
  | ClearFilters
  | SortBy string
  | GoToPage int
  | RefreshTick bool
  | Arrive nat fetch_outcome

definition elapse :: "nat \<Rightarrow> world \<Rightarrow> world" where
  "elapse d w =
     (let w = w\<lparr>clock := clock w + d\<rparr> in
      case searchDebounce w of
        None \<Rightarrow> w
      | Some deadline \<Rightarrow>
          if deadline \<le> clock w then search_commit (w\<lparr>searchDebounce := None\<rparr>) else w)"

definition arrive :: "nat \<Rightarrow> fetch_outcome \<Rightarrow> world \<Rightarrow> world" where
  "arrive i outcome w =
     (if i < length (fetches w) \<and> i \<notin> set (settled w)
      then loadDevices_resume outcome (w\<lparr>settled := i # settled w\<rparr>)
      else w)"

fun step :: "world \<Rightarrow> event \<Rightarrow> world" where
  "step w (Input text) = search_listener (w\<lparr>search_input := text\<rparr>)"
| "step w (Elapse d) = elapse d w"
| "step w (StatusChange v) = status_listener (w\<lparr>status_filter := v\<rparr>)"
| "step w (TypeChange v) = type_listener (w\<lparr>type_filter := v\<rparr>)"
| "step w ClearFilters = clear_filters_listener w"
| "step w (SortBy col) = sortBy col w"
| "step w (GoToPage p) = goToPage p w"
| "step w (RefreshTick anyOpen) = refresh_tick anyOpen w"
| "step w (Arrive i outcome) = arrive i outcome w"

definition run :: "world \<Rightarrow> event list \<Rightarrow> world" where
  "run w evs = foldl step w evs"

subsection \<open>Observations and scenarios\<close>

text \<open>The Result Summary as the page holds it: the items are what the table area
  shows, the two totals are fields of \<^verbatim>\<open>state\<close>.\<close>

definition resultSummary :: "world \<Rightarrow> table_content \<times> int \<times> int" where
  "resultSummary w = (table_content w, st_totalItems (st w), st_totalPages (st w))"

text \<open>A successful list response (status 200) with the given body.\<close>

definition list_response :: "json_object \<Rightarrow> fetch_outcome" where
  "list_response data = Responded \<lparr>status = 200, json = Parsed (VObject data)\<rparr>"

definition page_of_devices :: "device list \<Rightarrow> int \<Rightarrow> int \<Rightarrow> json_object" where
  "page_of_devices ds totalElements totalPages =
     \<lparr>j_message = None, j_error = None, j_content = Some ds,
      j_totalElements = Some totalElements, j_totalPages = Some totalPages\<rparr>"

text \<open>A burst of edits of the search box: a first text, then further texts, each after
  a pause of the given length.\<close>

definition burst :: "string \<Rightarrow> (nat \<times> string) list \<Rightarrow> event list" where
  "burst text rest = Input text # concat (map (\<lambda>(d, t). [Elapse d, Input t]) rest)"

definition last_text :: "string \<Rightarrow> (nat \<times> string) list \<Rightarrow> string" where
  "last_text text rest = last (text # map snd rest)"

text \<open>Responses reaching \<^verbatim>\<open>apiFetch\<close> one after the other, whichever endpoint function
  made the call (each of them returns the promise of \<^verbatim>\<open>apiFetch\<close>).\<close>

definition deliver_all :: "world \<Rightarrow> response list \<Rightarrow> world" where
  "deliver_all w rs = foldl (\<lambda>w r. snd (apiFetch_resume w (Responded r))) w rs"

text \<open>The number of times the window was sent to the login page; every run of
  \<^verbatim>\<open>logout\<close> adds one.\<close>

definition teardowns :: "world \<Rightarrow> nat" where
  "teardowns w = length (filter (\<lambda>url. url = ''index.html'') (navigations w))"

text \<open>The Result Summary that shows the data of one response body and nothing else, on
  a page whose table header follows the given state.\<close>

definition shown_summary :: "state \<Rightarrow> json_object \<Rightarrow> table_content \<times> int \<times> int" where
  "shown_summary s data =
     (case j_content data of
        None \<Rightarrow> NoDevicesFound
      | Some [] \<Rightarrow> NoDevicesFound
      | Some ds \<Rightarrow> DeviceTable (st_sort s) (st_direction s) ds,
      case j_totalElements data of None \<Rightarrow> 0 | Some n \<Rightarrow> n,
      case j_totalPages data of None \<Rightarrow> 0 | Some n \<Rightarrow> n)"

text \<open>A page opened by a logged-in user, right after its \<^verbatim>\<open>DOMContentLoaded\<close> listener
  has run: the first list request (identifier 0) is on its way.\<close>

definition logged_in :: world where
  "logged_in =
     dom_content_loaded
       (initial_world [AUTH_KEY \<mapsto> ''YWRtaW46c2VjcmV0'', USER_KEY \<mapsto> ''admin''])"

definition device_named :: "string \<Rightarrow> device" where
  "device_named n =
     \<lparr>dev_id = n, dev_name = Str (code_units n), dev_type = ''SERVER'', dev_status = ''ACTIVE'',
      dev_ipAddress = Null, dev_location = Null, dev_updatedAt = Null, dev_createdAt = Null\<rparr>"

text \<open>A response with status 401 and an unreadable body.\<close>

definition unauthorized :: fetch_outcome where
  "unauthorized = Responded \<lparr>status = 401, json = ParseError ''Unexpected end of JSON input''\<rparr>"


section \<open>Verification\<close>

subsection \<open>Exact arithmetic up to \<open>2^53\<close>\<close>

lemma scale_small: "m < 2 ^ 53 \<Longrightarrow> scale m = 1"
  by (simp add: scale.simps)

lemma round_nat_exact: "m \<le> 2 ^ 53 \<Longrightarrow> round_nat m = m"
proof (cases "m < 2 ^ 53")
  case True
  then show ?thesis by (simp add: round_nat_def scale_small)
next
  case False
  assume "m \<le> 2 ^ 53"
  with False have "m = 2 ^ 53" by simp
  then show ?thesis by (simp add: round_nat_def scale.simps Let_def)
qed

lemma js_round_exact: "- (2 ^ 53) \<le> n \<Longrightarrow> n \<le> 2 ^ 53 \<Longrightarrow> js_round n = n"
  by (simp add: js_round_def round_nat_exact nat_le_iff)

lemma js_add_exact: "- (2 ^ 53) \<le> a + b \<Longrightarrow> a + b \<le> 2 ^ 53 \<Longrightarrow> js_add a b = a + b"
  by (simp add: js_add_def js_round_exact)

lemma js_sub_exact: "- (2 ^ 53) \<le> a - b \<Longrightarrow> a - b \<le> 2 ^ 53 \<Longrightarrow> js_sub a b = a - b"
  by (simp add: js_sub_def js_round_exact)

lemma js_round_above: "js_round 9007199254740993 = 9007199254740992"
  by (simp add: js_round_def round_nat_def scale.simps Let_def)

subsection \<open>The pagination range\<close>

lemma set_set_add: "set (set_add r i) = insert i (set r)"
  by (auto simp: set_add_def)

lemma distinct_set_add: "distinct r \<Longrightarrow> distinct (set_add r i)"
  by (simp add: set_add_def)

lemma set_foldl_set_add: "set (foldl set_add r xs) = set r \<union> set xs"
  by (induction xs arbitrary: r) (auto simp: set_set_add)

lemma distinct_foldl_set_add: "distinct r \<Longrightarrow> distinct (foldl set_add r xs)"
  by (induction xs arbitrary: r) (simp_all add: distinct_set_add)

text \<open>Below \<open>2^53\<close> the increment is exact and the loop ends, having added every
  integer from \<open>i\<close> to \<open>hi\<close>.\<close>

lemma add_loop_exact:
  "0 \<le> i \<Longrightarrow> hi < 2 ^ 53 \<Longrightarrow> add_loop i hi r = Some (foldl set_add r [i .. hi])"
proof (induction "nat (hi + 1 - i)" arbitrary: i r)
  case 0
  then have "hi < i" by simp
  then show ?case by (simp add: add_loop.simps [of i hi r])
next
  case (Suc n)
  then have le: "i \<le> hi" by simp
  with Suc.prems have "js_add i 1 = i + 1" by (simp add: js_add_exact)
  moreover have "add_loop (i + 1) hi (set_add r i) = Some (foldl set_add (set_add r i) [i + 1 .. hi])"
    using Suc.hyps(2) Suc.prems by (intro Suc.hyps(1)) simp_all
  moreover have "[i .. hi] = i # [i + 1 .. hi]" using le by (simp add: upto_rec1)
  ultimately show ?case using le by (simp add: add_loop.simps [of i hi r])
qed

text \<open>A loop whose counter no longer moves, below its bound, never ends.\<close>

lemma add_loop_moves:
  assumes "add_loop i hi r = Some y"
  shows "\<not> (js_add i 1 = i \<and> i \<le> hi \<and> i \<in> set r)"
proof (rule add_loop.raw_induct
    [where P = "\<lambda>i hi r y. \<not> (js_add i 1 = i \<and> i \<le> hi \<and> i \<in> set r)", OF _ assms],
    goal_cases)
  case (1 f i hi r y)
  show ?case
  proof
    assume s: "js_add i 1 = i \<and> i \<le> hi \<and> i \<in> set r"
    then have "set_add r i = r" by (simp add: set_add_def)
    with s 1(2) have "f i hi r = Some y" by simp
    then have "\<not> (js_add i 1 = i \<and> i \<le> hi \<and> i \<in> set r)" by (rule 1(1))
    with s show False by simp
  qed
qed

lemma add_loop_stuck:
  assumes "js_add i 1 = i" "i \<le> hi" "i \<in> set r"
  shows "add_loop i hi r = None"
proof (cases "add_loop i hi r")
  case None
  then show ?thesis .
next
  case (Some y)
  from add_loop_moves [OF this] assms show ?thesis by simp
qed

lemma sort_distinct: "distinct xs \<Longrightarrow> sort xs = sorted_list_of_set (set xs)"
  by (simp add: sorted_list_of_set_sort_remdups distinct_remdups_id)

lemma walk_step_Suc: "walk_step (p # ps) (Suc (Suc i)) = walk_step ps (Suc i)"
  by (simp add: walk_step_def)

lemma walk_Cons: "walk (p # ps) = Page p # concat (map (\<lambda>i. walk_step (p # ps) (Suc i)) [0..<length ps])"
proof -
  have "[0..<length (p # ps)] = 0 # map Suc [0..<length ps]"
    by (simp add: upt_conv_Cons map_Suc_upt del: upt_Suc)
  then show ?thesis by (simp add: walk_def walk_step_def comp_def)
qed

text \<open>On pages up to \<open>2^53\<close> the differences the walk takes are exact.\<close>

lemma walk_spec_gaps:
  "\<forall>x \<in> set srt. 0 \<le> x \<and> x \<le> 2 ^ 53 \<Longrightarrow> walk srt = spec_gaps srt"
proof (induction srt rule: spec_gaps.induct)
  case 1
  then show ?case by (simp add: walk_def)
next
  case (2 p)
  then show ?case by (simp add: walk_def walk_step_def)
next
  case (3 p p' ps)
  from "3.prems" have d: "js_sub p' p = p' - p" by (simp add: js_sub_exact)
  have "walk (p # p' # ps) = Page p # concat (map (\<lambda>i. walk_step (p # p' # ps) (Suc i)) [0..<length (p' # ps)])"
    by (rule walk_Cons)
  also have "[0..<length (p' # ps)] = 0 # map Suc [0..<length ps]"
    by (simp add: upt_conv_Cons map_Suc_upt del: upt_Suc)
  also have "Page p # concat (map (\<lambda>i. walk_step (p # p' # ps) (Suc i)) (0 # map Suc [0..<length ps]))
     = Page p # walk_step (p # p' # ps) 1 @ concat (map (\<lambda>i. walk_step (p' # ps) (Suc i)) [0..<length ps])"
    by (simp add: comp_def walk_step_Suc)
  also have "\<dots> = (if p' - p > 1 then [Page p, Ellipsis] else [Page p]) @ walk (p' # ps)"
    by (simp add: walk_Cons walk_step_def d)
  finally show ?case using 3 by simp
qed

lemma window_eq:
  "{p \<in> {cur - 2 .. cur + 2}. 1 \<le> p \<and> p \<le> tot - 2} = {max 1 (cur - 2) .. min (tot - 2) (cur + (2::int))}"
  by auto

lemma initial_set: "set (foldl set_add [] [a, b, c]) = {a, b, c}" "distinct (foldl set_add [] [a, b, c])"
  by (auto simp: set_add_def)

lemma upper_bound_rounded:
  assumes "0 \<le> cur" "cur < tot" "tot \<le> 2 ^ 53"
  shows "min (tot - 2) (js_add cur 2) = min (tot - 2) (cur + 2)"
proof (cases "cur + 2 \<le> 2 ^ 53")
  case True
  with assms show ?thesis by (simp add: js_add_exact)
next
  case False
  with assms have "cur + 2 = 9007199254740993" by simp
  then have "js_add cur 2 = 9007199254740992" by (simp add: js_add_def js_round_above)
  with assms False show ?thesis by simp
qed

lemma buildPageRange_large:
  assumes "7 < tot" "tot \<le> 2 ^ 53" "0 \<le> cur" "cur < tot"
  shows "buildPageRange cur tot = Some (spec_gaps (spec_pages cur tot))"
proof -
  let ?lo = "max 1 (cur - 2)" and ?hi = "min (tot - 2) (cur + 2)"
  let ?r = "foldl set_add [] [0, tot - 1, cur]"
  let ?r' = "foldl set_add ?r [?lo .. ?hi]"
  have t1: "js_sub tot 1 = tot - 1" and t2: "js_sub tot 2 = tot - 2" and c2: "js_sub cur 2 = cur - 2"
    using assms by (simp_all add: js_sub_exact)
  have hi: "min (tot - 2) (js_add cur 2) = ?hi"
    using assms by (simp add: upper_bound_rounded)
  have "add_loop ?lo ?hi ?r = Some ?r'"
    using assms by (intro add_loop_exact) simp_all
  then have b: "buildPageRange cur tot = Some (walk (sort ?r'))"
    using assms(1) by (simp add: buildPageRange_def Let_def t1 t2 c2 hi)
  have s: "set ?r' = {0, tot - 1, cur} \<union> {?lo .. ?hi}"
    by (simp only: set_foldl_set_add initial_set(1)) simp
  have "distinct ?r'" by (intro distinct_foldl_set_add initial_set(2))
  then have srt: "sort ?r' = sorted_list_of_set ({0, tot - 1, cur} \<union> {?lo .. ?hi})"
    by (simp only: sort_distinct s)
  have "\<forall>x \<in> set (sort ?r'). 0 \<le> x \<and> x \<le> 2 ^ 53"
    using assms by (simp only: set_sort s) auto
  then have "walk (sort ?r') = spec_gaps (sort ?r')" by (rule walk_spec_gaps)
  with b srt show ?thesis by (simp only: spec_pages_def window_eq)
qed

lemma map_int_upt: "map int [0..<n] = [0 .. int n - 1]"
proof (induction n)
  case 0
  then show ?case by simp
next
  case (Suc n)
  have "[0 .. int (Suc n) - 1] = [0 .. int n - 1] @ [int n]"
    using upto_rec2 [of 0 "int n"] by simp
  with Suc show ?case by simp
qed

lemma buildPageRange_small:
  assumes "tot \<le> 7" "0 \<le> tot"
  shows "buildPageRange cur tot = Some (map Page [0 .. tot - 1])"
proof -
  have "map (\<lambda>i. Page (int i)) [0..<nat tot] = map Page (map int [0..<nat tot])"
    by (simp add: comp_def)
  also have "\<dots> = map Page [0 .. tot - 1]"
    using assms(2) by (simp only: map_int_upt) simp
  finally show ?thesis using assms(1) by (simp add: buildPageRange_def)
qed

lemma spec_pages_large:
  assumes "7 < tot" "0 \<le> cur" "cur < tot"
  shows "spec_pages cur tot = 0 # [max 1 (cur - 2) .. min (tot - 2) (cur + 2)] @ [tot - 1]"
proof -
  let ?lo = "max 1 (cur - 2)" and ?hi = "min (tot - 2) (cur + 2)"
  let ?xs = "0 # [?lo .. ?hi] @ [tot - 1]"
  have s: "{0, tot - 1, cur} \<union> {?lo .. ?hi} = set ?xs"
    using assms by auto
  have "sorted ?xs" using assms by (auto simp: sorted_append)
  moreover have "distinct ?xs" using assms by auto
  ultimately have "sorted_list_of_set (set ?xs) = ?xs"
    by (rule sorted_list_of_set.idem_if_sorted_distinct)
  then show ?thesis unfolding spec_pages_def window_eq s .
qed

lemma page_count_spec_gaps: "page_count (spec_gaps xs) = length xs"
  by (induction xs rule: spec_gaps.induct) (simp_all add: page_count_def)

lemma spec_gaps_run:
  "lo \<le> hi \<Longrightarrow>
     spec_gaps ([lo .. hi] @ [t]) = map Page [lo .. hi] @ (if t - hi > 1 then [Ellipsis] else []) @ [Page t]"
proof (induction "nat (hi - lo)" arbitrary: lo)
  case 0
  then have "lo = hi" by simp
  then show ?case by simp
next
  case (Suc n)
  then have lt: "lo < hi" by simp
  then have e1: "[lo .. hi] = lo # [lo + 1 .. hi]" by (simp add: upto_rec1)
  from lt obtain r where e2: "[lo + 1 .. hi] = (lo + 1) # r" by (simp add: upto_rec1)
  have "spec_gaps ([lo .. hi] @ [t]) = Page lo # spec_gaps ([lo + 1 .. hi] @ [t])"
    unfolding e1 e2 by simp
  moreover have "spec_gaps ([lo + 1 .. hi] @ [t])
      = map Page [lo + 1 .. hi] @ (if t - hi > 1 then [Ellipsis] else []) @ [Page t]"
    using Suc(2) lt by (intro Suc(1)) simp_all
  ultimately show ?case by (simp add: e1)
qed

lemma ellipsis_count_map_Page: "ellipsis_count (map Page xs) = 0"
  by (induction xs) (simp_all add: ellipsis_count_def)

lemma ellipsis_count_append: "ellipsis_count (xs @ ys) = ellipsis_count xs + ellipsis_count ys"
  by (simp add: ellipsis_count_def)

lemma ellipsis_count_large:
  assumes "lo \<le> hi"
  shows "ellipsis_count (spec_gaps (p # [lo .. hi] @ [t])) \<le> 2"
proof -
  from assms have e1: "[lo .. hi] = lo # [lo + 1 .. hi]" by (simp add: upto_rec1)
  have "spec_gaps (p # [lo .. hi] @ [t])
      = (if lo - p > 1 then [Page p, Ellipsis] else [Page p]) @ spec_gaps ([lo .. hi] @ [t])"
    by (subst (1 2) e1) simp
  then show ?thesis
    using assms
    by (simp add: spec_gaps_run ellipsis_count_append ellipsis_count_map_Page)
       (simp add: ellipsis_count_def)
qed

text \<open>
  Claim C4, as the code has it. For every current page and page total with
  \<open>0 \<le> current < total \<le> 2^53\<close> (9007199254740992, up to which the sums and differences
  of the code are exact), \<^verbatim>\<open>buildPageRange\<close> returns the range the specification
  describes: all pages \<open>0 .. total - 1\<close> in order when \<open>total \<le> 7\<close>; otherwise the sorted set
  of page 0, page \<open>total - 1\<close>, the current page and every page within distance 2 of the
  current page that lies in \<open>[1, total - 2]\<close>, with an ellipsis between consecutive entries
  that differ by more than 1. For 10 pages and current page 5 the range is
  0, ellipsis, 3, 4, 5, 6, 7, ellipsis, 9.
\<close>

theorem buildPageRange_spec:
  "(0 \<le> cur \<and> cur < tot \<and> tot \<le> 9007199254740992 \<longrightarrow>
      buildPageRange cur tot = Some (spec_page_range cur tot))
   \<and> buildPageRange 5 10
      = Some [Page 0, Ellipsis, Page 3, Page 4, Page 5, Page 6, Page 7, Ellipsis, Page 9]"
proof
  show "0 \<le> cur \<and> cur < tot \<and> tot \<le> 9007199254740992 \<longrightarrow>
      buildPageRange cur tot = Some (spec_page_range cur tot)"
    by (cases "tot \<le> 7") (simp_all add: buildPageRange_small buildPageRange_large spec_page_range_def)
  have "buildPageRange 5 10 = Some (spec_gaps (spec_pages 5 10))"
    by (rule buildPageRange_large) simp_all
  also have "spec_pages 5 10 = 0 # [max 1 (5 - 2) .. min (10 - 2) (5 + 2)] @ [10 - 1]"
    by (rule spec_pages_large) simp_all
  finally show "buildPageRange 5 10
      = Some [Page 0, Ellipsis, Page 3, Page 4, Page 5, Page 6, Page 7, Ellipsis, Page 9]"
    by (simp add: upto_rec1)
qed

theorem buildPageRange_spec_witness:
  "(0::int) \<le> 8 \<and> (8::int) < 20 \<and> (20::int) \<le> 9007199254740992
   \<and> buildPageRange 8 20 = Some (spec_page_range 8 20)
   \<and> (0::int) \<le> 2 \<and> (2::int) < 4 \<and> buildPageRange 2 4 = Some (spec_page_range 2 4)"
  using buildPageRange_spec [of 8 20] buildPageRange_spec [of 2 4] by simp

text \<open>
  Claim C4 as stated fails: with 9007199254740994 pages (\<open>2^53 + 2\<close>) and current page 5
  the code computes the last page as \<^verbatim>\<open>total - 1\<close>, which rounds to 9007199254740992,
  where the claim has page 9007199254740993.
\<close>

theorem buildPageRange_last_page_rounded:
  "buildPageRange 5 9007199254740994
     = Some [Page 0, Ellipsis, Page 3, Page 4, Page 5, Page 6, Page 7, Ellipsis,
             Page 9007199254740992]
   \<and> spec_page_range 5 9007199254740994
     = [Page 0, Ellipsis, Page 3, Page 4, Page 5, Page 6, Page 7, Ellipsis,
        Page 9007199254740993]
   \<and> buildPageRange 5 9007199254740994 \<noteq> Some (spec_page_range 5 9007199254740994)"
proof -
  have t1: "js_sub 9007199254740994 1 = 9007199254740992"
    and t2: "js_sub 9007199254740994 2 = 9007199254740992"
    by (simp_all add: js_sub_def js_round_def round_nat_def scale.simps Let_def)
  have c: "js_sub 5 2 = 3" "js_add 5 2 = 7"
    by (simp_all add: js_sub_exact js_add_exact)
  have "add_loop 3 7 (foldl set_add [] [0, 9007199254740992, 5])
      = Some (foldl set_add (foldl set_add [] [0, 9007199254740992, 5]) [3 .. 7])"
    by (rule add_loop_exact) simp_all
  then have l: "add_loop 3 7 [0, 9007199254740992, 5] = Some [0, 9007199254740992, 5, 3, 4, 6, 7]"
    by (simp add: set_add_def upto_rec1)
  have w: "walk [0, 3, 4, 5, 6, 7, 9007199254740992]
      = spec_gaps [0, 3, 4, 5, 6, 7, 9007199254740992]"
    by (rule walk_spec_gaps) simp
  have b: "buildPageRange 5 9007199254740994
     = Some [Page 0, Ellipsis, Page 3, Page 4, Page 5, Page 6, Page 7, Ellipsis,
             Page 9007199254740992]"
    by (simp add: buildPageRange_def t1 t2 c set_add_def l w)
  have "spec_pages 5 9007199254740994
      = 0 # [max 1 (5 - 2) .. min (9007199254740994 - 2) (5 + 2)] @ [9007199254740994 - 1]"
    by (rule spec_pages_large) simp_all
  then have s: "spec_page_range 5 9007199254740994
     = [Page 0, Ellipsis, Page 3, Page 4, Page 5, Page 6, Page 7, Ellipsis,
        Page 9007199254740993]"
    by (simp add: spec_page_range_def upto_rec1)
  show ?thesis by (simp add: b s)
qed

text \<open>
  Claim C5, as the code has it. For every current page and page total with
  \<open>0 \<le> current < total \<le> 2^53\<close> (9007199254740992), \<^verbatim>\<open>buildPageRange\<close> returns, and the
  range it returns holds at most 7 page numbers and at most 2 ellipses. (Above \<open>2^53\<close> the
  loop counter can stop moving; the function then never returns.)
\<close>

theorem buildPageRange_bounded:
  "0 \<le> cur \<and> cur < tot \<and> tot \<le> 9007199254740992 \<longrightarrow>
     (\<exists>r. buildPageRange cur tot = Some r \<and> page_count r \<le> 7 \<and> ellipsis_count r \<le> 2)"
proof (intro impI, elim conjE)
  assume c: "0 \<le> cur" "cur < tot" "tot \<le> 9007199254740992"
  show "\<exists>r. buildPageRange cur tot = Some r \<and> page_count r \<le> 7 \<and> ellipsis_count r \<le> 2"
  proof (cases "tot \<le> 7")
    case True
    with c have "buildPageRange cur tot = Some (map Page [0 .. tot - 1])"
      by (simp add: buildPageRange_small)
    moreover have "page_count (map Page [0 .. tot - 1]) = length [0 .. tot - 1]"
      by (simp add: page_count_def)
    ultimately show ?thesis using True c by (simp add: ellipsis_count_map_Page)
  next
    case False
    let ?lo = "max 1 (cur - 2)" and ?hi = "min (tot - 2) (cur + 2)"
    from False c have b: "buildPageRange cur tot = Some (spec_gaps (0 # [?lo .. ?hi] @ [tot - 1]))"
      by (simp add: buildPageRange_large spec_pages_large)
    have le: "?lo \<le> ?hi" using False c by auto
    have "length (0 # [?lo .. ?hi] @ [tot - 1]) \<le> 7" by auto
    then have "page_count (spec_gaps (0 # [?lo .. ?hi] @ [tot - 1])) \<le> 7"
      unfolding page_count_spec_gaps .
    moreover have "ellipsis_count (spec_gaps (0 # [?lo .. ?hi] @ [tot - 1])) \<le> 2"
      using le by (rule ellipsis_count_large)
    ultimately show ?thesis using b by simp
  qed
qed

theorem buildPageRange_bounded_witness:
  "(0::int) \<le> 500 \<and> (500::int) < 1000 \<and> (1000::int) \<le> 9007199254740992
   \<and> (\<exists>r. buildPageRange 500 1000 = Some r \<and> page_count r \<le> 7 \<and> ellipsis_count r \<le> 2)"
  using buildPageRange_bounded [of 500 1000] by simp

text \<open>
  Claim C5 as stated fails: with 9007199254740996 pages (\<open>2^53 + 4\<close>) and current page
  9007199254740992 (\<open>2^53\<close>) the loop reaches \<open>i = 2^53\<close>, below its bound \<open>2^53 + 2\<close>, where
  \<^verbatim>\<open>i++\<close> rounds back to \<open>2^53\<close>: the function never returns, so no range with at most 7
  page numbers comes back.
\<close>

theorem buildPageRange_never_returns:
  "buildPageRange 9007199254740992 9007199254740996 = None"
proof -
  have t1: "js_sub 9007199254740996 1 = 9007199254740996"
    and t2: "js_sub 9007199254740996 2 = 9007199254740994"
    and c1: "js_sub 9007199254740992 2 = 9007199254740990"
    and c2: "js_add 9007199254740992 2 = 9007199254740994"
    and i1: "js_add 9007199254740990 1 = 9007199254740991"
    and i2: "js_add 9007199254740991 1 = 9007199254740992"
    and i3: "js_add 9007199254740992 1 = 9007199254740992"
    by (simp_all add: js_sub_def js_add_def js_round_def round_nat_def scale.simps Let_def)
  have "add_loop 9007199254740992 9007199254740994
      [0, 9007199254740996, 9007199254740992, 9007199254740990, 9007199254740991] = None"
    using i3 by (rule add_loop_stuck) simp_all
  then have "add_loop 9007199254740990 9007199254740994
      [0, 9007199254740996, 9007199254740992] = None"
    by (simp add: add_loop.simps [of 9007199254740990] add_loop.simps [of 9007199254740991]
        i1 i2 set_add_def)
  then show ?thesis
    by (simp add: buildPageRange_def t1 t2 c1 c2 set_add_def)
qed


subsection \<open>HTML escaping\<close>

lemma replace_all_Nil: "replace_all c rep [] = []"
  by (simp add: replace_all_def)

lemma replace_all_Cons:
  "replace_all c rep (x # xs) = (if x = c then rep else [x]) @ replace_all c rep xs"
  by (simp add: replace_all_def)

lemma replace_all_append:
  "replace_all c rep (xs @ ys) = replace_all c rep xs @ replace_all c rep ys"
  by (simp add: replace_all_def)

lemma escape_single:
  "replace_all (of_char (CHR 0x27)) (code_units ''&#39;'')
     (replace_all (of_char (CHR 0x22)) (code_units ''&quot;'')
       (replace_all (of_char CHR ''>'') (code_units ''&gt;'')
         (replace_all (of_char CHR ''<'') (code_units ''&lt;'')
           (replace_all (of_char CHR ''&'') (code_units ''&amp;'') [x])))) = entity x"
  by (simp add: replace_all_Cons replace_all_Nil entity_def code_units_def)

lemma escape_chain:
  "replace_all (of_char (CHR 0x27)) (code_units ''&#39;'')
     (replace_all (of_char (CHR 0x22)) (code_units ''&quot;'')
       (replace_all (of_char CHR ''>'') (code_units ''&gt;'')
         (replace_all (of_char CHR ''<'') (code_units ''&lt;'')
           (replace_all (of_char CHR ''&'') (code_units ''&amp;'') s))))
   = concat (map entity s)"
proof (induction s)
  case Nil
  then show ?case by (simp add: replace_all_Nil)
next
  case (Cons x s)
  have "x # s = [x] @ s" by simp
  then show ?case
    using Cons by (simp only: replace_all_append escape_single) simp
qed

lemmas escape_chain_units = escape_chain [simplified]

lemma entity_safe:
  "of_char CHR ''<'' \<notin> set (entity c) \<and> of_char CHR ''>'' \<notin> set (entity c)
   \<and> of_char (CHR 0x22) \<notin> set (entity c) \<and> of_char (CHR 0x27) \<notin> set (entity c)"
  by (simp add: entity_def code_units_def)

lemma escapeHtml_converted:
  "escapeHtml v = Inr out \<Longrightarrow> out = [] \<or> (\<exists>s. out = concat (map entity s))"
  by (auto simp add: escapeHtml_def escape_chain_units split: if_splits sum.splits)

text \<open>
  Claim C10, as the code has it. For every input that is \<^verbatim>\<open>undefined\<close>, \<^verbatim>\<open>null\<close> or a
  string, \<^verbatim>\<open>escapeHtml\<close> returns a string: the empty string for \<^verbatim>\<open>undefined\<close> and
  \<^verbatim>\<open>null\<close>, and for a string the text in which each of the characters ampersand,
  less-than, greater-than, double quote and single quote is replaced by its entity and
  every other character (any code unit) is kept. The five passes of the source amount to
  one pass that maps every character to its entity. Whenever \<^verbatim>\<open>escapeHtml\<close> returns, for
  any input, the result holds no raw less-than, greater-than, double quote or single
  quote. (For other inputs \<^verbatim>\<open>String(str)\<close> decides whether it returns.)
\<close>

theorem escapeHtml_entities:
  "escapeHtml Undefined = Inr [] \<and> escapeHtml Null = Inr []
   \<and> escapeHtml (Str s) = Inr (concat (map entity s))
   \<and> (escapeHtml v = Inr out \<longrightarrow>
        of_char CHR ''<'' \<notin> set out \<and> of_char CHR ''>'' \<notin> set out
        \<and> of_char (CHR 0x22) \<notin> set out \<and> of_char (CHR 0x27) \<notin> set out)"
proof (intro conjI impI)
  show "escapeHtml Undefined = Inr []" "escapeHtml Null = Inr []"
    by (simp_all add: escapeHtml_def)
  show "escapeHtml (Str s) = Inr (concat (map entity s))"
    by (simp add: escapeHtml_def to_String_def escape_chain_units)
  assume "escapeHtml v = Inr out"
  then have o: "out = [] \<or> (\<exists>s. out = concat (map entity s))"
    by (rule escapeHtml_converted)
  have "c \<notin> set out" if "\<And>x. c \<notin> set (entity x)" for c
    using o that by auto
  with entity_safe
  show "of_char CHR ''<'' \<notin> set out" "of_char CHR ''>'' \<notin> set out"
    "of_char (CHR 0x22) \<notin> set out" "of_char (CHR 0x27) \<notin> set out"
    by blast+
qed

theorem escapeHtml_entities_witness:
  "escapeHtml (Str (code_units ''<b>Tom & Jerry's</b>''))
     = Inr (code_units ''&lt;b&gt;Tom &amp; Jerry&#39;s&lt;/b&gt;'')
   \<and> of_char CHR ''<'' \<notin> set (code_units ''&lt;b&gt;Tom &amp; Jerry&#39;s&lt;/b&gt;'')"
  using
    escapeHtml_entities [of "code_units ''<b>Tom & Jerry's</b>''"
      "Str (code_units ''<b>Tom & Jerry's</b>'')"
      "code_units ''&lt;b&gt;Tom &amp; Jerry&#39;s&lt;/b&gt;''"]
  by (simp add: entity_def code_units_def)

text \<open>
  Claim C10 as stated fails: \<^verbatim>\<open>escapeHtml\<close> returns no string for the object that
  \<^verbatim>\<open>JSON.parse\<close> makes of \<^verbatim>\<open>{"toString": ""}\<close>. \<^verbatim>\<open>String(str)\<close> finds no function under
  \<^verbatim>\<open>toString\<close> and no primitive value, and throws a type error.
\<close>

theorem escapeHtml_throws:
  "escapeHtml (Object [(code_units ''toString'', Str [])]) = Inl TypeError"
  by (simp add: escapeHtml_def to_String_def)


subsection \<open>What a call and a response leave untouched\<close>

lemma renderPagination_frame:
  "st (renderPagination w) = st w"
  "table_content (renderPagination w) = table_content w"
  "fetches (renderPagination w) = fetches w"
  "settled (renderPagination w) = settled w"
  by (simp_all add: renderPagination_def Let_def split: option.split)

lemma st_loadDevices: "st (loadDevices w) = st w"
  by (simp add: loadDevices_def apiFetch_def Let_def)

lemma st_logout: "st (logout w) = st w"
  by (simp add: logout_def navigate_def)

lemma st_apiFetch_resume: "st (snd (apiFetch_resume w outcome)) = st w"
  by (simp add: apiFetch_resume_def st_logout split: fetch_outcome.split json_result.split)

lemma st_catch: "st (loadDevices_catch m w) = st w"
  by (simp add: loadDevices_catch_def showToast_def)

lemma st_apply:
  "st (loadDevices_apply data w) =
     (st w)\<lparr>st_totalPages := (case j_totalPages data of Some n \<Rightarrow> n | None \<Rightarrow> 0),
            st_totalItems := (case j_totalElements data of Some n \<Rightarrow> n | None \<Rightarrow> 0)\<rparr>"
  by (simp add: loadDevices_apply_def renderTable_def renderPagination_frame Let_def)

lemma page_resume: "st_page (st (loadDevices_resume outcome w)) = st_page (st w)"
proof -
  obtain res w' where e: "apiFetch_resume w outcome = (res, w')"
    by (cases "apiFetch_resume w outcome")
  then have "st w' = st w" using st_apiFetch_resume [of w outcome] by simp
  then show ?thesis
    by (simp add: loadDevices_resume_def e st_catch st_apply split: sum.split api_value.split)
qed




lemma run_append: "run w (xs @ ys) = run (run w xs) ys"
  by (simp add: run_def)

text \<open>The definitions a concrete scenario unfolds.\<close>

lemmas scenario_defs =
  run_def logged_in_def dom_content_loaded_def initial_world_def initial_state_def requireAuth_def
  navigate_def logout_def loadDevices_def apiFetch_def getDevices_def getAuthHeader_def
  AUTH_KEY_def USER_KEY_def arrive_def loadDevices_resume_def apiFetch_resume_def ok_def
  loadDevices_apply_def loadDevices_catch_def showToast_def renderTable_def renderPagination_def
  list_response_def page_of_devices_def goToPage_def sortBy_def refresh_tick_def Let_def
  unauthorized_def teardowns_def resultSummary_def shown_summary_def device_named_def
  buildPageRange_def

subsection \<open>Sorting\<close>

text \<open>
  Claim C6. For every call \<^verbatim>\<open>sortBy(col)\<close> in every state: when \<open>col\<close> is the current sort
  column the column stays and the direction flips, ascending to descending and back;
  otherwise the column becomes \<open>col\<close> and the direction ascending. In both cases the page
  index is reset to 0, and the direction afterwards is one of the two defined values.
\<close>

theorem sortBy_toggle:
  "(st_sort (st w) = col \<longrightarrow>
      st_sort (st (sortBy col w)) = st_sort (st w)
      \<and> (st_direction (st w) = ''asc'' \<longrightarrow> st_direction (st (sortBy col w)) = ''desc'')
      \<and> (st_direction (st w) = ''desc'' \<longrightarrow> st_direction (st (sortBy col w)) = ''asc''))
   \<and> (st_sort (st w) \<noteq> col \<longrightarrow>
      st_sort (st (sortBy col w)) = col \<and> st_direction (st (sortBy col w)) = ''asc'')
   \<and> st_page (st (sortBy col w)) = 0
   \<and> st_direction (st (sortBy col w)) \<in> {''asc'', ''desc''}"
  by (simp add: sortBy_def Let_def st_loadDevices)

theorem sortBy_toggle_witness:
  "st_sort (st logged_in) = ''name'' \<and> st_direction (st logged_in) = ''asc''
   \<and> st_direction (st (sortBy ''name'' logged_in)) = ''desc''
   \<and> st_sort (st (sortBy ''name'' logged_in)) = ''name''
   \<and> st_direction (st (sortBy ''name'' (sortBy ''name'' logged_in))) = ''asc''
   \<and> st_sort (st logged_in) \<noteq> ''type''
   \<and> st_sort (st (sortBy ''type'' logged_in)) = ''type''
   \<and> st_direction (st (sortBy ''type'' logged_in)) = ''asc''"
  using sortBy_toggle [of logged_in "''name''"] sortBy_toggle [of logged_in "''type''"]
    sortBy_toggle [of "sortBy ''name'' logged_in" "''name''"]
  by (simp add: scenario_defs)

subsection \<open>Going to a page\<close>

text \<open>
  Claim C8. A call \<^verbatim>\<open>goToPage(n)\<close> with \<open>n < 0\<close> or \<open>n\<close> at or above the total of pages of
  the last response changes nothing: the query state is as before, no request is sent, no
  error is shown. A call with \<open>0 \<le> n < totalPages\<close> sets the page index to \<open>n\<close>, leaves
  every other field of the query state as it was, and sends exactly one list request, for
  page \<open>n\<close>.
\<close>

theorem goToPage_frame:
  "(p < 0 \<or> p \<ge> st_totalPages (st w) \<longrightarrow> goToPage p w = w)
   \<and> (0 \<le> p \<and> p < st_totalPages (st w) \<longrightarrow>
        st (goToPage p w) = (st w)\<lparr>st_page := p\<rparr>
        \<and> (\<exists>req. fetches (goToPage p w) = fetches w @ [req] \<and> q_page (rq_query req) = p)
        \<and> toasts (goToPage p w) = toasts w)"
  by (auto simp add: goToPage_def loadDevices_def apiFetch_def Let_def getDevices_def)

theorem goToPage_frame_witness:
  "(7::int) \<ge> st_totalPages (st (run logged_in
        [Arrive 0 (list_response (page_of_devices [device_named ''a''] 100 5))]))
   \<and> goToPage 7 (run logged_in
        [Arrive 0 (list_response (page_of_devices [device_named ''a''] 100 5))])
      = run logged_in [Arrive 0 (list_response (page_of_devices [device_named ''a''] 100 5))]
   \<and> (3::int) < st_totalPages (st (run logged_in
        [Arrive 0 (list_response (page_of_devices [device_named ''a''] 100 5))]))
   \<and> st_page (st (goToPage 3 (run logged_in
        [Arrive 0 (list_response (page_of_devices [device_named ''a''] 100 5))]))) = 3
   \<and> length (fetches (goToPage 3 (run logged_in
        [Arrive 0 (list_response (page_of_devices [device_named ''a''] 100 5))]))) = 2"
  using
    goToPage_frame [of 7 "run logged_in
        [Arrive 0 (list_response (page_of_devices [device_named ''a''] 100 5))]"]
    goToPage_frame [of 3 "run logged_in
        [Arrive 0 (list_response (page_of_devices [device_named ''a''] 100 5))]"]
  by (simp add: scenario_defs)

subsection \<open>A failed reload and an empty result\<close>






subsection \<open>The page index along a run\<close>

lemma page_arrive: "st_page (st (arrive i outcome w)) = st_page (st w)"
  by (simp add: arrive_def page_resume)

lemma page_elapse: "0 \<le> st_page (st w) \<Longrightarrow> 0 \<le> st_page (st (elapse d w))"
  by (simp add: elapse_def Let_def search_commit_def st_loadDevices split: option.split)

lemma page_step: "0 \<le> st_page (st w) \<Longrightarrow> 0 \<le> st_page (st (step w e))"
  by (cases e)
     (simp_all add: page_arrive page_elapse search_listener_def status_listener_def
        type_listener_def clear_filters_listener_def sortBy_def goToPage_def refresh_tick_def
        st_loadDevices Let_def)

lemma page_run: "0 \<le> st_page (st w) \<Longrightarrow> 0 \<le> st_page (st (run w evs))"
  unfolding run_def by (induction evs arbitrary: w) (simp_all add: page_step)

text \<open>
  Claim C2, as the code has it. The page index is never negative, along every sequence of
  events from a loaded page. A call \<^verbatim>\<open>goToPage(n)\<close> with \<open>0 \<le> n < totalPages\<close> sets it to
  \<open>n\<close>, below the total of pages of that moment; any other \<^verbatim>\<open>goToPage(n)\<close> changes
  nothing. A change of the sort, of a filter or of the search text sets it to 0. A
  response that arrives never changes it: the code has no clamp, so the page index stays
  where it was also when the response reports fewer pages.
\<close>

theorem page_index_behaviour:
  "(0 \<le> st_page (st w) \<longrightarrow> 0 \<le> st_page (st (run w evs)))
   \<and> 0 \<le> st_page (st (run (dom_content_loaded (initial_world storage)) evs))
   \<and> st_page (st (step w (Arrive i outcome))) = st_page (st w)
   \<and> (0 \<le> n \<and> n < st_totalPages (st w) \<longrightarrow>
        st_page (st (step w (GoToPage n))) = n
        \<and> st_totalPages (st (step w (GoToPage n))) = st_totalPages (st w))
   \<and> (n < 0 \<or> st_totalPages (st w) \<le> n \<longrightarrow> step w (GoToPage n) = w)
   \<and> st_page (st (step w (SortBy col))) = 0
   \<and> st_page (st (step w (StatusChange v))) = 0
   \<and> st_page (st (step w (TypeChange v))) = 0
   \<and> st_page (st (step w ClearFilters)) = 0
   \<and> st_page (st (search_commit w)) = 0"
proof -
  have "0 \<le> st_page (st (dom_content_loaded (initial_world storage)))"
    by (simp add: dom_content_loaded_def st_loadDevices requireAuth_def navigate_def
        initial_world_def initial_state_def split: option.split)
  then have "0 \<le> st_page (st (run (dom_content_loaded (initial_world storage)) evs))"
    by (rule page_run)
  then show ?thesis
    by (simp add: page_run page_arrive goToPage_def sortBy_def status_listener_def
        type_listener_def clear_filters_listener_def search_commit_def st_loadDevices Let_def)
qed

theorem page_index_behaviour_witness:
  "0 \<le> st_page (st logged_in)
   \<and> 0 \<le> st_page (st (run logged_in
        [Arrive 0 (list_response (page_of_devices [device_named ''a''] 100 5)), GoToPage 3]))
   \<and> (3::int) < st_totalPages (st (run logged_in
        [Arrive 0 (list_response (page_of_devices [device_named ''a''] 100 5))]))
   \<and> st_page (st (step (run logged_in
        [Arrive 0 (list_response (page_of_devices [device_named ''a''] 100 5))]) (GoToPage 3))) = 3
   \<and> st_totalPages (st logged_in) \<le> 3
   \<and> step logged_in (GoToPage 3) = logged_in"
  using
    page_index_behaviour [of logged_in
      "[Arrive 0 (list_response (page_of_devices [device_named ''a''] 100 5)), GoToPage 3]"
      _ _ _ 3]
    page_index_behaviour [of "run logged_in
        [Arrive 0 (list_response (page_of_devices [device_named ''a''] 100 5))]" _ _ _ _ 3]
  by (simp add: scenario_defs)

text \<open>
  Claim C2 as stated fails: after the first response (5 pages), a move to page 3 and its
  response, a refresh whose response reports 2 pages leaves the page index at 3, which
  is not below the total of pages last observed; the last event is a response, not a call
  that resets the index.
\<close>

theorem page_index_not_clamped:
  "st_page (st (run logged_in
      [Arrive 0 (list_response (page_of_devices [device_named ''a''] 100 5)),
       GoToPage 3,
       Arrive 1 (list_response (page_of_devices [device_named ''b''] 100 5)),
       RefreshTick False,
       Arrive 2 (list_response (page_of_devices [device_named ''c''] 30 2))])) = 3
   \<and> st_totalPages (st (run logged_in
      [Arrive 0 (list_response (page_of_devices [device_named ''a''] 100 5)),
       GoToPage 3,
       Arrive 1 (list_response (page_of_devices [device_named ''b''] 100 5)),
       RefreshTick False,
       Arrive 2 (list_response (page_of_devices [device_named ''c''] 30 2))])) = 2
   \<and> \<not> st_page (st (run logged_in
      [Arrive 0 (list_response (page_of_devices [device_named ''a''] 100 5)),
       GoToPage 3,
       Arrive 1 (list_response (page_of_devices [device_named ''b''] 100 5)),
       RefreshTick False,
       Arrive 2 (list_response (page_of_devices [device_named ''c''] 30 2))]))
     < st_totalPages (st (run logged_in
      [Arrive 0 (list_response (page_of_devices [device_named ''a''] 100 5)),
       GoToPage 3,
       Arrive 1 (list_response (page_of_devices [device_named ''b''] 100 5)),
       RefreshTick False,
       Arrive 2 (list_response (page_of_devices [device_named ''c''] 30 2))]))"
  by (simp add: scenario_defs)

subsection \<open>Responses in arrival order\<close>










subsection \<open>Status 401 and the end of the session\<close>

lemma teardowns_logout: "teardowns (logout w) = teardowns w + 1"
  by (simp add: teardowns_def logout_def navigate_def)

lemma deliver_all_401:
  "\<forall>r \<in> set rs. status r = 401 \<Longrightarrow> teardowns (deliver_all w rs) = teardowns w + length rs"
  unfolding deliver_all_def
  by (induction rs arbitrary: w) (simp_all add: apiFetch_resume_def teardowns_logout)

text \<open>
  Claim C3, as the code has it. For every response with status 401 that reaches
  \<^verbatim>\<open>apiFetch\<close>, whichever endpoint function made the call, \<^verbatim>\<open>apiFetch\<close> runs \<^verbatim>\<open>logout\<close> and
  resolves to \<^verbatim>\<open>undefined\<close>; it throws no error. \<^verbatim>\<open>logout\<close> removes the stored
  credentials and sends the window to the login page. The teardown runs once for each
  such response, not once in all: \<open>k\<close> responses with status 401 run it \<open>k\<close> times. Running
  it again leaves the session storage and the window's address as the first run left
  them.
\<close>

theorem unauthorized_teardown:
  "(status r = 401 \<longrightarrow> apiFetch_resume w (Responded r) = (Inr VUndefined, logout w))
   \<and> sessionStorage (logout w) AUTH_KEY = None
   \<and> sessionStorage (logout w) USER_KEY = None
   \<and> location_href (logout w) = ''index.html''
   \<and> teardowns (logout w) = teardowns w + 1
   \<and> ((\<forall>r \<in> set rs. status r = 401) \<longrightarrow> teardowns (deliver_all w rs) = teardowns w + length rs)
   \<and> sessionStorage (logout (logout w)) = sessionStorage (logout w)
   \<and> location_href (logout (logout w)) = location_href (logout w)"
  by (simp add: apiFetch_resume_def teardowns_logout deliver_all_401)
     (simp add: logout_def navigate_def)

theorem unauthorized_teardown_witness:
  "status \<lparr>status = 401, json = ParseError ''Unexpected end of JSON input''\<rparr> = 401
   \<and> fst (apiFetch_resume logged_in
        (Responded \<lparr>status = 401, json = ParseError ''Unexpected end of JSON input''\<rparr>))
      = Inr VUndefined
   \<and> sessionStorage (snd (apiFetch_resume logged_in
        (Responded \<lparr>status = 401, json = ParseError ''Unexpected end of JSON input''\<rparr>))) AUTH_KEY
      = None
   \<and> teardowns logged_in = 0
   \<and> teardowns (deliver_all logged_in
        [\<lparr>status = 401, json = ParseError ''Unexpected end of JSON input''\<rparr>,
         \<lparr>status = 401, json = Parsed VNull\<rparr>,
         \<lparr>status = 401, json = ParseError ''Unexpected end of JSON input''\<rparr>]) = 3"
  using
    unauthorized_teardown
      [of "\<lparr>status = 401, json = ParseError ''Unexpected end of JSON input''\<rparr>" logged_in
        "[\<lparr>status = 401, json = ParseError ''Unexpected end of JSON input''\<rparr>,
          \<lparr>status = 401, json = Parsed VNull\<rparr>,
          \<lparr>status = 401, json = ParseError ''Unexpected end of JSON input''\<rparr>]"]
  by (simp add: scenario_defs)

text \<open>
  Claim C3 as stated fails: two list requests are pending, the first load and the one a
  change of the sort column sent, and each receives status 401. The teardown runs twice,
  not exactly once.
\<close>

theorem teardown_twice:
  "teardowns (run logged_in [SortBy ''type'', Arrive 0 unauthorized, Arrive 1 unauthorized]) = 2
   \<and> teardowns (run logged_in [SortBy ''type'', Arrive 0 unauthorized, Arrive 1 unauthorized])
      \<noteq> 1"
  by (simp add: scenario_defs)

subsection \<open>The debounced search box\<close>

lemma burst_snoc: "burst text (rest @ [(d, t)]) = burst text rest @ [Elapse d, Input t]"
  by (simp add: burst_def)

lemma last_text_snoc: "last_text text (rest @ [(d, t)]) = t"
  by (simp add: last_text_def)

lemma burst_pending:
  assumes "\<forall>(d, t) \<in> set rest. d < 350"
  shows "run w (burst text rest) =
     w\<lparr>search_input := last_text text rest,
       clock := clock w + sum_list (map fst rest),
       searchDebounce := Some (clock w + sum_list (map fst rest) + 350)\<rparr>"
  using assms
proof (induction rest rule: rev_induct)
  case Nil
  then show ?case
    by (simp add: burst_def last_text_def run_def search_listener_def)
next
  case (snoc x rest)
  obtain d t where x: "x = (d, t)" by (cases x)
  from snoc.prems x have d: "d < 350" by simp
  from snoc have ih: "run w (burst text rest) =
     w\<lparr>search_input := last_text text rest,
       clock := clock w + sum_list (map fst rest),
       searchDebounce := Some (clock w + sum_list (map fst rest) + 350)\<rparr>"
    by simp
  show ?case
    unfolding x burst_snoc run_append ih last_text_snoc
    using d by (simp add: run_def elapse_def Let_def search_listener_def)
qed

text \<open>
  Claim C7, as the code has it. Time is counted in milliseconds. For every burst of edits
  of the search box in which each edit follows its predecessor by less than 350 ms,
  followed by at least 350 ms without an edit: during the burst nothing is committed and
  no request is sent, each edit replacing the pending timer by one that is due 350 ms
  after it; after the silence exactly one commit has happened. It stores the text of the
  last edit with leading and trailing white space removed (not the text as typed) as the
  search text, resets the page index to 0 and sends exactly one list request, which
  carries that search text and page 0.
\<close>

theorem debounce_commit:
  assumes "\<forall>(d, t) \<in> set rest. d < 350" and "350 \<le> D"
  shows "fetches (run w (burst text rest)) = fetches w
     \<and> st (run w (burst text rest)) = st w
     \<and> searchDebounce (run w (burst text rest)) = Some (clock (run w (burst text rest)) + 350)
     \<and> st (run w (burst text rest @ [Elapse D]))
         = (st w)\<lparr>st_q := trim (last_text text rest), st_page := 0\<rparr>
     \<and> (\<exists>req. fetches (run w (burst text rest @ [Elapse D])) = fetches w @ [req]
           \<and> q_page (rq_query req) = 0
           \<and> q_q (rq_query req)
               = (if trim (last_text text rest) = [] then None
                  else Some (trim (last_text text rest))))
     \<and> searchDebounce (run w (burst text rest @ [Elapse D])) = None"
proof -
  note b = burst_pending [OF assms(1), of w "text"]
  have "run w (burst text rest @ [Elapse D]) = elapse D (run w (burst text rest))"
    by (simp add: run_def)
  then show ?thesis
    using assms(2)
    by (simp add: b elapse_def Let_def search_commit_def loadDevices_def apiFetch_def
        getDevices_def)
qed

theorem debounce_commit_witness:
  "(100::nat) < 350 \<and> (200::nat) < 350 \<and> (350::nat) \<le> 400
   \<and> st_q (st (run logged_in (burst ''a'' [(100, ''ab''), (200, ''abc'')] @ [Elapse 400])))
      = ''abc''
   \<and> st_page (st (run logged_in (burst ''a'' [(100, ''ab''), (200, ''abc'')] @ [Elapse 400])))
      = 0
   \<and> length (fetches (run logged_in (burst ''a'' [(100, ''ab''), (200, ''abc'')] @ [Elapse 400])))
      = length (fetches logged_in) + 1"
proof -
  have h: "\<forall>(d, t) \<in> set [(100, ''ab''), (200, ''abc'')]. d < (350::nat)" by simp
  have D: "(350::nat) \<le> 400" by simp
  from debounce_commit [OF h D, of logged_in "''a''"] show ?thesis
    by (auto simp add: last_text_def trim_def isWhiteSpace_def)
qed

text \<open>
  Claim C7 as stated fails: one edit leaves the text \<open>'' a''\<close> (a space, then the letter a)
  in the search box; after 350 ms the commit stores \<open>''a''\<close>, which is not the text of
  the last edit.
\<close>

theorem debounce_commit_trims:
  "st_q (st (run logged_in (burst '' a'' [] @ [Elapse 350]))) = ''a''
   \<and> st_q (st (run logged_in (burst '' a'' [] @ [Elapse 350]))) \<noteq> last_text '' a'' []"
  by (simp add: scenario_defs burst_def last_text_def elapse_def search_listener_def
      search_commit_def trim_def isWhiteSpace_def)

end
